theory Spec2Isabelle
  imports Main
begin

section \<open>JavaScript strings\<close>

text \<open>
  A JavaScript string is a sequence of UTF-16 code units. The model uses \<^typ>\<open>string\<close>:
  every \<^typ>\<open>char\<close> stands for one code unit below 256. Every character the program
  tests for (braces, parentheses, quotes, the hash sign, commas, back quotes, white space)
  lies in that range.
\<close>

definition NL :: char where
  "NL = CHR 0x0A"

definition BQ :: char where
  "BQ = CHR 0x60"

definition DQ :: char where
  "DQ = CHR 0x22"

definition SQ :: char where
  "SQ = CHR 0x27"

text \<open>White space and line terminators, as \<^verbatim>\<open>\s\<close> and \<^verbatim>\<open>trim()\<close> see them
  (tab, line feed, vertical tab, form feed, carriage return, space, no-break space).\<close>

definition isSpace :: "char \<Rightarrow> bool" where
  "isSpace c = (c = CHR 0x09 \<or> c = CHR 0x0A \<or> c = CHR 0x0B \<or> c = CHR 0x0C \<or>
                c = CHR 0x0D \<or> c = CHR 0x20 \<or> c = CHR 0xA0)"

text \<open>The class \<^verbatim>\<open>\w\<close>: ASCII letters, digits and the underscore.\<close>

definition isWord :: "char \<Rightarrow> bool" where
  "isWord c = (let n = (of_char c :: nat) in
     (48 \<le> n \<and> n \<le> 57) \<or> (65 \<le> n \<and> n \<le> 90) \<or> n = 95 \<or> (97 \<le> n \<and> n \<le> 122))"

text \<open>Line terminators, for \<^verbatim>\<open>^\<close> and \<^verbatim>\<open>$\<close> under the \<^verbatim>\<open>m\<close> flag.\<close>

definition isLineTerminator :: "char \<Rightarrow> bool" where
  "isLineTerminator c = (c = CHR 0x0A \<or> c = CHR 0x0D)"

definition trim :: "string \<Rightarrow> string" where
  "trim s = rev (dropWhile isSpace (rev (dropWhile isSpace s)))"

definition startsWith :: "string \<Rightarrow> string \<Rightarrow> bool" where
  "startsWith s p = (take (length p) s = p)"

definition endsWith :: "string \<Rightarrow> string \<Rightarrow> bool" where
  "endsWith s p = (length p \<le> length s \<and> drop (length s - length p) s = p)"

text \<open>\<^verbatim>\<open>s.includes(p)\<close>.\<close>

fun includesStr :: "string \<Rightarrow> string \<Rightarrow> bool" where
  "includesStr [] p = (p = [])"
| "includesStr (x # xs) p = (startsWith (x # xs) p \<or> includesStr xs p)"

text \<open>\<^verbatim>\<open>s.split(c)\<close> for a one-character separator: the empty string gives one empty piece.\<close>

fun split :: "char \<Rightarrow> string \<Rightarrow> string list" where
  "split c [] = [[]]"
| "split c (x # xs) =
     (if x = c then [] # split c xs
      else (case split c xs of [] \<Rightarrow> [[x]] | y # ys \<Rightarrow> (x # y) # ys))"

fun join :: "string \<Rightarrow> string list \<Rightarrow> string" where
  "join sep [] = []"
| "join sep [x] = x"
| "join sep (x # y # ys) = x @ sep @ join sep (y # ys)"

text \<open>\<^verbatim>\<open>xs.slice(i, j)\<close> for indices that are not negative.\<close>

definition slice :: "'a list \<Rightarrow> nat \<Rightarrow> nat \<Rightarrow> 'a list" where
  "slice xs i j = take (j - i) (drop i xs)"

section \<open>Regular expressions\<close>

text \<open>
  The regular expressions of the program are data. The matcher is a backtracking matcher
  as ECMAScript defines it: it returns the list of all ways to match, in the order in which
  the engine would try them, so the head of the list is the match the engine reports.
  A matcher state holds the character before the current position (\<open>None\<close> at the start of
  the input), the rest of the input, and what capture group 1 holds.
\<close>

datatype atom =
    Lit char          \<comment> \<open>one given character\<close>
  | WS                \<comment> \<open>\<^verbatim>\<open>\s\<close>\<close>
  | Word              \<comment> \<open>\<^verbatim>\<open>\w\<close>\<close>
  | NotLit char       \<comment> \<open>\<^verbatim>\<open>[^c]\<close>\<close>

datatype regex =
    Atom atom
  | Eps
  | Bol               \<comment> \<open>\<^verbatim>\<open>^\<close> without the \<^verbatim>\<open>m\<close> flag\<close>
  | Eol               \<comment> \<open>\<^verbatim>\<open>$\<close> without the \<^verbatim>\<open>m\<close> flag\<close>
  | BolM              \<comment> \<open>\<^verbatim>\<open>^\<close> with the \<^verbatim>\<open>m\<close> flag\<close>
  | EolM              \<comment> \<open>\<^verbatim>\<open>$\<close> with the \<^verbatim>\<open>m\<close> flag\<close>
  | Seq regex regex
  | Alt regex regex
  | Star regex        \<comment> \<open>greedy \<^verbatim>\<open>*\<close>\<close>
  | Group regex       \<comment> \<open>capture group 1\<close>

type_synonym mstate = "char option \<times> string \<times> string option"

fun atomOk :: "atom \<Rightarrow> char \<Rightarrow> bool" where
  "atomOk (Lit c) x = (x = c)"
| "atomOk WS x = isSpace x"
| "atomOk Word x = isWord x"
| "atomOk (NotLit c) x = (x \<noteq> c)"

text \<open>
  Greedy iteration. An iteration that consumes nothing is rejected, as in ECMAScript, so
  every iteration consumes a character and the length of the input bounds the number of
  iterations: the counter starts there and cannot cut a match short.
\<close>

primrec starIter :: "(mstate \<Rightarrow> mstate list) \<Rightarrow> nat \<Rightarrow> mstate \<Rightarrow> mstate list" where
  "starIter f 0 st = [st]"
| "starIter f (Suc n) st =
     concat (map (\<lambda>st'. if length (fst (snd st')) < length (fst (snd st))
                         then starIter f n st' else []) (f st)) @ [st]"

primrec rmatch :: "regex \<Rightarrow> mstate \<Rightarrow> mstate list" where
  "rmatch (Atom a) = (\<lambda>(prev, s, cap).
     (case s of [] \<Rightarrow> [] | x # xs \<Rightarrow> if atomOk a x then [(Some x, xs, cap)] else []))"
| "rmatch Eps = (\<lambda>st. [st])"
| "rmatch Bol = (\<lambda>(prev, s, cap). if prev = None then [(prev, s, cap)] else [])"
| "rmatch Eol = (\<lambda>(prev, s, cap). if s = [] then [(prev, s, cap)] else [])"
| "rmatch BolM = (\<lambda>(prev, s, cap).
     (case prev of None \<Rightarrow> [(prev, s, cap)]
      | Some c \<Rightarrow> if isLineTerminator c then [(prev, s, cap)] else []))"
| "rmatch EolM = (\<lambda>(prev, s, cap).
     (case s of [] \<Rightarrow> [(prev, s, cap)]
      | x # xs \<Rightarrow> if isLineTerminator x then [(prev, s, cap)] else []))"
| "rmatch (Seq r1 r2) = (\<lambda>st. concat (map (rmatch r2) (rmatch r1 st)))"
| "rmatch (Alt r1 r2) = (\<lambda>st. rmatch r1 st @ rmatch r2 st)"
| "rmatch (Star r) = (\<lambda>st. starIter (rmatch r) (length (fst (snd st))) st)"
| "rmatch (Group r) = (\<lambda>(prev, s, cap).
     map (\<lambda>(prev', s', cap'). (prev', s', Some (take (length s - length s') s)))
         (rmatch r (prev, s, cap)))"

text \<open>The derived forms: \<^verbatim>\<open>r?\<close>, \<^verbatim>\<open>r+\<close>, a literal word, a sequence, an
  alternation of literal words.\<close>

definition opt :: "regex \<Rightarrow> regex" where
  "opt r = Alt r Eps"

definition oneOrMore :: "regex \<Rightarrow> regex" where
  "oneOrMore r = Seq r (Star r)"

definition lit :: "string \<Rightarrow> regex" where
  "lit s = foldr (\<lambda>c r. Seq (Atom (Lit c)) r) s Eps"

definition seqs :: "regex list \<Rightarrow> regex" where
  "seqs rs = foldr Seq rs Eps"

fun alts :: "string list \<Rightarrow> regex" where
  "alts [] = Eps"
| "alts [w] = lit w"
| "alts (w # v # ws) = Alt (lit w) (alts (v # ws))"

text \<open>
  \<^verbatim>\<open>s.match(r)\<close> for a regular expression without the \<^verbatim>\<open>g\<close> flag: the leftmost
  match. \<open>None\<close> is \<^verbatim>\<open>null\<close>; \<open>Some cap\<close> is a match whose element 1 is \<open>cap\<close>
  (\<open>None\<close> for \<^verbatim>\<open>undefined\<close>).
\<close>

fun execFrom :: "regex \<Rightarrow> char option \<Rightarrow> string \<Rightarrow> string option option" where
  "execFrom r prev s =
     (case rmatch r (prev, s, None) of
        st # _ \<Rightarrow> Some (snd (snd st))
      | [] \<Rightarrow> (case s of [] \<Rightarrow> None | x # xs \<Rightarrow> execFrom r (Some x) xs))"

declare execFrom.simps [simp del]

definition jsMatch :: "string \<Rightarrow> regex \<Rightarrow> string option option" where
  "jsMatch s r = execFrom r None s"

section \<open>The documentation service\<close>

datatype error =
    TypeError           \<comment> \<open>a property of \<^verbatim>\<open>undefined\<close> is read\<close>
  | IllegalArgument     \<comment> \<open>\<^verbatim>\<open>lineAt\<close> of a line the document does not have\<close>

text \<open>
  A lookup \<^verbatim>\<open>table[key]\<close> in an object literal finds the table's own entry, and otherwise
  the property that every object inherits under that name, when there is one: a function,
  or the prototype itself for \<^verbatim>\<open>__proto__\<close>. Each of these is truthy, is no string and
  cannot be iterated. These are the inherited names.
\<close>

definition objectPrototypeKeys :: "string list" where
  "objectPrototypeKeys =
    [''constructor'', ''__proto__'', ''hasOwnProperty'', ''isPrototypeOf'',
     ''propertyIsEnumerable'', ''toLocaleString'', ''toString'', ''valueOf'',
     ''__defineGetter__'', ''__defineSetter__'', ''__lookupGetter__'', ''__lookupSetter__'']"

text \<open>
  \<^verbatim>\<open>LANGUAGE_STYLE_MAP[language] || 'jsdoc'\<close>, the style chosen under \<^verbatim>\<open>auto\<close>. \<open>None\<close> is
  an inherited property: what the lookup gives for an inherited name, which is not a
  style.
\<close>

definition LANGUAGE_STYLE_MAP :: "string \<rightharpoonup> string" where
  "LANGUAGE_STYLE_MAP = map_of
    [(''typescript'', ''tsdoc''), (''javascript'', ''jsdoc''),
     (''typescriptreact'', ''tsdoc''), (''javascriptreact'', ''jsdoc''),
     (''python'', ''google''), (''java'', ''javadoc''), (''kotlin'', ''javadoc''),
     (''go'', ''godoc''), (''rust'', ''rustdoc''), (''cpp'', ''doxygen''),
     (''c'', ''doxygen''), (''csharp'', ''xmldoc''), (''php'', ''phpdoc''),
     (''ruby'', ''yard''), (''swift'', ''swift'')]"

definition autoStyle :: "string \<Rightarrow> string option" where
  "autoStyle language =
     (case LANGUAGE_STYLE_MAP language of
        Some style \<Rightarrow> Some style
      | None \<Rightarrow> if language \<in> set objectPrototypeKeys then None else Some ''jsdoc'')"

subsection \<open>The patterns of \<^verbatim>\<open>getFunctionPatterns\<close>\<close>

definition ws0 :: regex where
  "ws0 = Star (Atom WS)"

definition ws1 :: regex where
  "ws1 = oneOrMore (Atom WS)"

definition w1 :: regex where
  "w1 = oneOrMore (Atom Word)"

definition ch :: "char \<Rightarrow> regex" where
  "ch c = Atom (Lit c)"

definition typescriptPatterns :: "regex list" where
  "typescriptPatterns =
    [seqs [Bol, ws0, opt (seqs [lit ''export'', ws1]), opt (seqs [lit ''async'', ws1]),
           lit ''function'', ws1, Group w1],
     seqs [Bol, ws0, opt (seqs [lit ''export'', ws1]), lit ''const'', ws1, Group w1, ws0,
           ch CHR ''='', ws0, opt (seqs [lit ''async'', ws1]), ch CHR ''(''],
     seqs [Bol, ws0, opt (alts [''public'', ''private'', ''protected'']), ws0,
           opt (seqs [lit ''async'', ws1]), Group w1, ws0, ch CHR ''('']]"

definition javascriptPatterns :: "regex list" where
  "javascriptPatterns =
    [seqs [Bol, ws0, opt (seqs [lit ''export'', ws1]), opt (seqs [lit ''async'', ws1]),
           lit ''function'', ws1, Group w1],
     seqs [Bol, ws0, opt (seqs [lit ''export'', ws1]), alts [''const'', ''let'', ''var''], ws1,
           Group w1, ws0, ch CHR ''='', ws0, opt (seqs [lit ''async'', ws1]), ch CHR ''(''],
     seqs [Bol, ws0, Group w1, ws0, ch CHR '':'', ws0, opt (seqs [lit ''async'', ws1]),
           lit ''function'']]"

definition pythonPatterns :: "regex list" where
  "pythonPatterns =
    [seqs [Bol, ws0, opt (seqs [lit ''async'', ws1]), lit ''def'', ws1, Group w1, ws0,
           ch CHR ''('']]"

definition javaPatterns :: "regex list" where
  "javaPatterns =
    [seqs [Bol, ws0, opt (alts [''public'', ''private'', ''protected'']), ws0,
           opt (lit ''static''), ws0, w1, ws1, Group w1, ws0, ch CHR ''('']]"

definition goPatterns :: "regex list" where
  "goPatterns =
    [seqs [Bol, ws0, lit ''func'', ws1,
           opt (seqs [ch CHR ''('', w1, ws1, opt (ch CHR ''*''), w1, ch CHR '')'', ws1]),
           Group w1, ws0, ch CHR ''('']]"

definition rustPatterns :: "regex list" where
  "rustPatterns =
    [seqs [Bol, ws0, opt (seqs [lit ''pub'', ws1]), opt (seqs [lit ''async'', ws1]),
           lit ''fn'', ws1, Group w1]]"

definition cppPatterns :: "regex list" where
  "cppPatterns =
    [seqs [Bol, ws0, oneOrMore (seqs [w1, ws1]), Group w1, ws0, ch CHR ''('',
           Star (Atom (NotLit CHR '')'')), ch CHR '')'', ws0, opt (lit ''const''), ws0,
           opt (ch CHR ''{''), Eol]]"

definition csharpPatterns :: "regex list" where
  "csharpPatterns =
    [seqs [Bol, ws0, opt (alts [''public'', ''private'', ''protected'', ''internal'']), ws0,
           opt (lit ''static''), ws0, w1, ws1, Group w1, ws0, ch CHR ''('']]"

definition phpPatterns :: "regex list" where
  "phpPatterns =
    [seqs [Bol, ws0, opt (alts [''public'', ''private'', ''protected'']), ws0,
           opt (lit ''static''), ws0, lit ''function'', ws1, Group w1]]"

definition rubyPatterns :: "regex list" where
  "rubyPatterns = [seqs [Bol, ws0, lit ''def'', ws1, Group w1]]"

text \<open>The table \<^verbatim>\<open>patterns\<close> of \<^verbatim>\<open>getFunctionPatterns\<close>.\<close>

definition patternTable :: "string \<rightharpoonup> regex list" where
  "patternTable = map_of
    [(''typescript'', typescriptPatterns), (''javascript'', javascriptPatterns),
     (''python'', pythonPatterns), (''java'', javaPatterns), (''go'', goPatterns),
     (''rust'', rustPatterns), (''cpp'', cppPatterns), (''csharp'', csharpPatterns),
     (''php'', phpPatterns), (''ruby'', rubyPatterns)]"

text \<open>
  \<^verbatim>\<open>patterns[language] || patterns.javascript\<close>. \<open>None\<close> is an inherited property: for an
  inherited name the lookup gives a truthy value, which the method returns in place of a
  list of patterns.
\<close>

definition getFunctionPatterns :: "string \<Rightarrow> regex list option" where
  "getFunctionPatterns language =
     (case patternTable language of
        Some ps \<Rightarrow> Some ps
      | None \<Rightarrow> if language \<in> set objectPrototypeKeys then None else Some javascriptPatterns)"

subsection \<open>\<^verbatim>\<open>getIndentLevel\<close> and \<^verbatim>\<open>findFunctionEnd\<close>\<close>

text \<open>\<^verbatim>\<open>/^(\s*)/\<close>\<close>

definition indentRe :: regex where
  "indentRe = seqs [Bol, Group ws0]"

definition getIndentLevel :: "string \<Rightarrow> error + nat" where
  "getIndentLevel line =
     (case jsMatch line indentRe of
        None \<Rightarrow> Inr 0
      | Some None \<Rightarrow> Inl TypeError
      | Some (Some g) \<Rightarrow> Inr (length g))"

text \<open>The loop of the Python branch, from line \<open>i\<close> on.\<close>

function pyScan :: "string list \<Rightarrow> nat \<Rightarrow> nat \<Rightarrow> error + nat" where
  "pyScan lines startIndent i =
     (if i < length lines then
        (let line = trim (lines ! i) in
         if line = [] \<or> startsWith line ''#'' then pyScan lines startIndent (i + 1)
         else (case getIndentLevel (lines ! i) of
                 Inl e \<Rightarrow> Inl e
               | Inr currentIndent \<Rightarrow>
                   if currentIndent \<le> startIndent \<and> line \<noteq> [] then Inr (i - 1)
                   else pyScan lines startIndent (i + 1)))
      else Inr (length lines - 1))"
  by pat_completeness auto
termination
  by (relation "measure (\<lambda>(lines, startIndent, i). length lines - i)") auto

declare pyScan.simps [simp del]

text \<open>The inner loop of the brace branch: the characters of one line.\<close>

fun countBraces :: "string \<Rightarrow> int \<times> bool \<Rightarrow> int \<times> bool" where
  "countBraces [] (braceCount, started) = (braceCount, started)"
| "countBraces (c # cs) (braceCount, started) =
     (if c = CHR ''{'' then countBraces cs (braceCount + 1, True)
      else if c = CHR ''}'' then countBraces cs (braceCount - 1, started)
      else countBraces cs (braceCount, started))"

text \<open>The outer loop of the brace branch, from line \<open>i\<close> on.\<close>

function braceScan :: "string list \<Rightarrow> nat \<Rightarrow> nat \<Rightarrow> int \<times> bool \<Rightarrow> nat" where
  "braceScan lines startLine i acc =
     (if i < length lines then
        (let (braceCount, started) = countBraces (lines ! i) acc in
         if started \<and> braceCount = 0 then i
         else braceScan lines startLine (i + 1) (braceCount, started))
      else startLine)"
  by pat_completeness auto
termination
  by (relation "measure (\<lambda>(lines, startLine, i, acc). length lines - i)") auto

declare braceScan.simps [simp del]

definition findFunctionEnd :: "string list \<Rightarrow> nat \<Rightarrow> string \<Rightarrow> error + nat" where
  "findFunctionEnd lines startLine language =
     (if language = ''python'' then
        (if startLine < length lines then
           (case getIndentLevel (lines ! startLine) of
              Inl e \<Rightarrow> Inl e
            | Inr startIndent \<Rightarrow> pyScan lines startIndent (startLine + 1))
         else Inl TypeError)
      else Inr (braceScan lines startLine startLine (0, False)))"

subsection \<open>\<^verbatim>\<open>extractParameters\<close> and \<^verbatim>\<open>findFunctionAtPosition\<close>\<close>

text \<open>\<^verbatim>\<open>/\(([^)]*)\)/\<close>\<close>

definition paramRe :: regex where
  "paramRe = seqs [ch CHR ''('', Group (Star (Atom (NotLit CHR '')''))), ch CHR '')'']"

definition extractParameters :: "string \<Rightarrow> string \<Rightarrow> error + string list" where
  "extractParameters line language =
     (case jsMatch line paramRe of
        None \<Rightarrow> Inr []
      | Some None \<Rightarrow> Inl TypeError
      | Some (Some g) \<Rightarrow>
          (let paramsStr = trim g in
           if paramsStr = [] then Inr []
           else Inr (map trim (split CHR '','' paramsStr))))"

text \<open>The inner loop over the patterns: the match of the first pattern that matches.\<close>

fun firstMatch :: "regex list \<Rightarrow> string \<Rightarrow> string option option" where
  "firstMatch [] line = None"
| "firstMatch (pattern # patterns) line =
     (case jsMatch line pattern of
        Some m \<Rightarrow> Some m
      | None \<Rightarrow> firstMatch patterns line)"

record ParsedFunction =
  name :: string
  startLine :: nat
  endLine :: nat
  parameters :: "string list"
  returnType :: "string option"
  isAsync :: bool
  isMethod :: bool
  className :: "string option"
  code :: string

text \<open>\<^verbatim>\<open>match[1] || 'anonymous'\<close>, for the capture \<open>m\<close> of group 1.\<close>

definition matchedName :: "string option \<Rightarrow> string" where
  "matchedName m = (case m of None \<Rightarrow> ''anonymous'' | Some n \<Rightarrow> if n = [] then ''anonymous'' else n)"

text \<open>What the loop body returns once a pattern has matched line \<open>i\<close> with capture \<open>m\<close>.\<close>

definition makeParsed ::
  "string list \<Rightarrow> nat \<Rightarrow> string \<Rightarrow> string option \<Rightarrow> error + ParsedFunction" where
  "makeParsed lines i language m =
     (case findFunctionEnd lines i language of
        Inl e \<Rightarrow> Inl e
      | Inr e \<Rightarrow>
          (case extractParameters (lines ! i) language of
             Inl err \<Rightarrow> Inl err
           | Inr ps \<Rightarrow>
               Inr \<lparr> name = matchedName m,
                     startLine = i,
                     endLine = e,
                     parameters = ps,
                     returnType = None,
                     isAsync = includesStr (lines ! i) ''async'',
                     isMethod = False,
                     className = None,
                     code = join [NL] (slice lines i (e + 1)) \<rparr>))"

text \<open>
  The loop \<^verbatim>\<open>for (let i = lineNumber; i >= Math.max(0, lineNumber - 20); i--)\<close>, from \<open>i\<close>
  down to \<open>lo\<close>; \<open>pats\<close> is what \<^verbatim>\<open>getFunctionPatterns\<close> has returned. The inner
  \<^verbatim>\<open>for (const pattern of patterns)\<close> throws when that is not a list. Reading
  \<^verbatim>\<open>lines[i]\<close> beyond the document gives \<^verbatim>\<open>undefined\<close>, and \<^verbatim>\<open>line.match\<close> then throws
  (every list of the table has a pattern).
\<close>

function scanBack ::
  "string list \<Rightarrow> string \<Rightarrow> regex list option \<Rightarrow> int \<Rightarrow> int \<Rightarrow> error + ParsedFunction option" where
  "scanBack lines language pats lo i =
     (if i \<ge> lo then
        (case pats of
           None \<Rightarrow> Inl TypeError
         | Some patterns \<Rightarrow>
             (if 0 \<le> i \<and> nat i < length lines then
                (case firstMatch patterns (lines ! nat i) of
                   Some m \<Rightarrow>
                     (case makeParsed lines (nat i) language m of
                        Inl e \<Rightarrow> Inl e
                      | Inr f \<Rightarrow> Inr (Some f))
                 | None \<Rightarrow> scanBack lines language pats lo (i - 1))
              else Inl TypeError))
      else Inr None)"
  by pat_completeness auto
termination
  by (relation "measure (\<lambda>(lines, language, pats, lo, i). nat (i - lo + 1))") auto

declare scanBack.simps [simp del]

definition findFunctionAtPosition :: "string \<Rightarrow> nat \<Rightarrow> string \<Rightarrow> error + ParsedFunction option" where
  "findFunctionAtPosition text lineNumber language =
     scanBack (split NL text) language (getFunctionPatterns language)
       (max 0 (int lineNumber - 20)) (int lineNumber)"

subsection \<open>\<^verbatim>\<open>hasDocumentation\<close>\<close>

text \<open>
  A document is the list of its lines, without their line ends; \<^verbatim>\<open>lineAt(n)\<close> throws
  when the document has no line \<open>n\<close>.
\<close>

definition lineAt :: "string list \<Rightarrow> nat \<Rightarrow> error + string" where
  "lineAt document n = (if n < length document then Inr (document ! n) else Inl IllegalArgument)"

definition hasDocumentation :: "string list \<Rightarrow> nat \<Rightarrow> error + bool" where
  "hasDocumentation document lineNumber =
     (if lineNumber = 0 then Inr False
      else (case lineAt document (lineNumber - 1) of
              Inl e \<Rightarrow> Inl e
            | Inr t \<Rightarrow>
                (let prevLine = trim t in
                 Inr (endsWith prevLine ''*/'' \<or> endsWith prevLine [DQ, DQ, DQ] \<or>
                      endsWith prevLine [SQ, SQ, SQ] \<or> startsWith prevLine ''///''))))"

subsection \<open>\<^verbatim>\<open>cleanDocumentation\<close>\<close>

text \<open>
  \<^verbatim>\<open>s.replace(r, '')\<close> for a regular expression with the \<^verbatim>\<open>g\<close> flag: every match, from
  left to right, is removed; after an empty match the search moves on by one character.
\<close>

function removeAll :: "regex \<Rightarrow> char option \<Rightarrow> string \<Rightarrow> string" where
  "removeAll r prev s =
     (case rmatch r (prev, s, None) of
        [] \<Rightarrow> (case s of [] \<Rightarrow> [] | x # xs \<Rightarrow> x # removeAll r (Some x) xs)
      | st # _ \<Rightarrow>
          (if length (fst (snd st)) < length s then removeAll r (fst st) (fst (snd st))
           else (case s of [] \<Rightarrow> [] | x # xs \<Rightarrow> x # removeAll r (Some x) xs)))"
  by pat_completeness auto
termination
  by (relation "measure (\<lambda>(r, prev, s). length s)") auto

declare removeAll.simps [simp del]

text \<open>\<^verbatim>\<open>/^```\w*\n?/gm\<close> and \<^verbatim>\<open>/```$/gm\<close>\<close>

definition fenceOpenRe :: regex where
  "fenceOpenRe = seqs [BolM, lit [BQ, BQ, BQ], Star (Atom Word), opt (ch NL)]"

definition fenceCloseRe :: regex where
  "fenceCloseRe = seqs [lit [BQ, BQ, BQ], EolM]"

definition stripFences :: "string \<Rightarrow> string" where
  "stripFences doc = trim (removeAll fenceCloseRe None (removeAll fenceOpenRe None doc))"

definition cleanDocumentation :: "string \<Rightarrow> string \<Rightarrow> string" where
  "cleanDocumentation doc style =
     (let cleaned = stripFences doc in
      if style = ''jsdoc'' \<or> style = ''tsdoc'' \<or> style = ''javadoc'' then
        (let cleaned1 = (if \<not> startsWith cleaned ''/**'' then ''/**'' @ [NL] @ cleaned
                         else cleaned);
             cleaned2 = (if \<not> endsWith cleaned1 ''*/'' then cleaned1 @ [NL] @ '' */''
                         else cleaned1)
         in cleaned2)
      else cleaned)"

section \<open>The Gemini service\<close>

text \<open>
  The persisted key-value state of the extension: one field for each key the service
  uses (\<^verbatim>\<open>quad.lastUsageDate\<close>, \<^verbatim>\<open>quad.todayUsage\<close>, \<^verbatim>\<open>quad.totalUsage\<close>), \<open>None\<close> while
  the key has never been written. \<^verbatim>\<open>get(key, default)\<close> is \<open>memGet\<close>. The counters are
  JavaScript numbers that hold integers: only this service writes them, from the default 0,
  by adding 1 and by storing 0.
\<close>

record GlobalState =
  lastUsageDate :: "string option"
  todayUsage :: "int option"
  totalUsage :: "int option"

definition memGet :: "'a option \<Rightarrow> 'a \<Rightarrow> 'a" where
  "memGet stored dflt = (case stored of None \<Rightarrow> dflt | Some v \<Rightarrow> v)"

text \<open>The fields of the service object; the model handle is the key it was made with.\<close>

record GeminiService =
  model :: "string option"
  apiKey :: string
  isUsingPool :: bool

definition DAILY_POOL_LIMIT :: int where
  "DAILY_POOL_LIMIT = 20"

definition DAILY_OWN_KEY_LIMIT :: int where
  "DAILY_OWN_KEY_LIMIT = 1500"

text \<open>
  \<^verbatim>\<open>initializeModel\<close>; \<open>created\<close> says whether the client library made the model or threw.
\<close>

definition initializeModel :: "bool \<Rightarrow> GeminiService \<Rightarrow> GeminiService" where
  "initializeModel created svc = svc\<lparr>model := (if created then Some (apiKey svc) else None)\<rparr>"

text \<open>
  \<^verbatim>\<open>initializeApiKey\<close>, run by the constructor. \<open>poolKey\<close> is \<^verbatim>\<open>QUAD_POOL_KEY\<close>, which the
  build replaces; in the source it is the placeholder itself.
\<close>

definition initializeApiKey :: "string \<Rightarrow> bool \<Rightarrow> string \<Rightarrow> bool \<Rightarrow> GeminiService" where
  "initializeApiKey poolKey created userKey usePool =
     (let svc0 = \<lparr>model = None, apiKey = [], isUsingPool = False\<rparr>;
          svc1 = (if userKey \<noteq> [] then svc0\<lparr>apiKey := userKey, isUsingPool := False\<rparr>
                  else if usePool then svc0\<lparr>apiKey := poolKey, isUsingPool := True\<rparr>
                  else svc0)
      in if apiKey svc1 \<noteq> [] \<and> apiKey svc1 \<noteq> ''QUAD_POOL_PLACEHOLDER''
         then initializeModel created svc1 else svc1)"

definition updateApiKey :: "bool \<Rightarrow> string \<Rightarrow> GeminiService \<Rightarrow> GeminiService" where
  "updateApiKey created newKey svc =
     initializeModel created (svc\<lparr>apiKey := newKey, isUsingPool := False\<rparr>)"

text \<open>\<^verbatim>\<open>checkQuota\<close>; \<open>today\<close> is \<^verbatim>\<open>new Date().toDateString()\<close>.\<close>

definition checkQuota :: "GeminiService \<Rightarrow> string \<Rightarrow> GlobalState \<Rightarrow> bool \<times> GlobalState" where
  "checkQuota svc today st =
     (let lastDate = memGet (lastUsageDate st) [];
          todayCount = memGet (todayUsage st) 0
      in if lastDate \<noteq> today
         then (True, st\<lparr>lastUsageDate := Some today, todayUsage := Some 0\<rparr>)
         else (let limit = (if isUsingPool svc then DAILY_POOL_LIMIT else DAILY_OWN_KEY_LIMIT)
               in (todayCount < limit, st)))"

text \<open>
  A JavaScript number is an IEEE double with a significand of 53 bits. The sum of two
  numbers that hold integers is the exact sum rounded to the nearest double, a tie going
  to the even significand: \<open>roundDouble\<close>. Every integer up to \<open>2 ^ 53\<close> in absolute value
  is a double; \<open>2 ^ 53 + 1\<close> is not, and rounds to \<open>2 ^ 53\<close>. (Adding 1 to a finite double
  never leaves the finite doubles.)
\<close>

function bitLength :: "int \<Rightarrow> nat" where
  "bitLength n = (if n \<le> 0 then 0 else Suc (bitLength (n div 2)))"
  by pat_completeness auto
termination
  by (relation "measure nat") auto

declare bitLength.simps [simp del]

definition roundDouble :: "int \<Rightarrow> int" where
  "roundDouble x =
     (let a = \<bar>x\<bar>;
          q = 2 ^ (bitLength a - 53);
          m = a div q;
          r = a mod q;
          m' = (if 2 * r > q \<or> (2 * r = q \<and> odd m) then m + 1 else m)
      in sgn x * (m' * q))"

definition jsAdd :: "int \<Rightarrow> int \<Rightarrow> int" where
  "jsAdd a b = roundDouble (a + b)"

definition incrementUsage :: "GlobalState \<Rightarrow> GlobalState" where
  "incrementUsage st =
     (let todayCount = memGet (todayUsage st) 0;
          totalCount = memGet (totalUsage st) 0
      in st\<lparr>todayUsage := Some (jsAdd todayCount 1), totalUsage := Some (jsAdd totalCount 1)\<rparr>)"

record UsageStats =
  todayRequests :: int
  totalRequests :: int
  dailyLimit :: int
  hasOwnKey :: bool
  poolRemaining :: int

text \<open>\<^verbatim>\<open>getUsageStats\<close>, with the persisted state it leaves behind.\<close>

definition getUsageStats :: "GeminiService \<Rightarrow> string \<Rightarrow> GlobalState \<Rightarrow> UsageStats \<times> GlobalState" where
  "getUsageStats svc today st =
     (let lastDate = memGet (lastUsageDate st) [];
          todayRequests0 = memGet (todayUsage st) 0;
          todayRequests1 = (if lastDate \<noteq> today then 0 else todayRequests0);
          totalRequests1 = memGet (totalUsage st) 0;
          dailyLimit1 = (if isUsingPool svc then DAILY_POOL_LIMIT else DAILY_OWN_KEY_LIMIT)
      in (\<lparr> todayRequests = todayRequests1,
             totalRequests = totalRequests1,
             dailyLimit = dailyLimit1,
             hasOwnKey = (\<not> isUsingPool svc),
             poolRemaining = (if isUsingPool svc then max 0 (DAILY_POOL_LIMIT - todayRequests1)
                              else 0) \<rparr>, st))"

text \<open>What a JavaScript \<^verbatim>\<open>throw\<close> carries: an \<^verbatim>\<open>Error\<close> with its message, or another value.\<close>

datatype thrown = Error string | NotAnError

text \<open>
  \<^verbatim>\<open>generateDocumentation\<close>. \<open>outcome\<close> is what the external generation call and the reading
  of its response give if they are made: the text, or what they throw. The prompt is built
  from the request and only handed to that call, so it does not appear. The result is what
  the method returns or throws, the persisted state afterwards, and the number of
  external calls made. \<^verbatim>\<open>explainCode\<close> and \<^verbatim>\<open>suggestImprovements\<close> have the same body
  with another prompt.
\<close>

definition generateDocumentation ::
  "GeminiService \<Rightarrow> string \<Rightarrow> thrown + string \<Rightarrow> GlobalState \<Rightarrow> (thrown + string) \<times> GlobalState \<times> nat" where
  "generateDocumentation svc today outcome st =
     (if model svc = None then (Inl (Error ''API_KEY: Gemini API key not configured''), st, 0)
      else (case checkQuota svc today st of
              (False, st1) \<Rightarrow> (Inl (Error ''QUOTA: Daily request limit exceeded''), st1, 0)
            | (True, st1) \<Rightarrow>
                (case outcome of
                   Inr text \<Rightarrow> (Inr text, incrementUsage st1, 1)
                 | Inl (Error message) \<Rightarrow>
                     (if includesStr message ''429''
                      then (Inl (Error ''QUOTA: Rate limit exceeded. Please try again later.''), st1, 1)
                      else (Inl (Error message), st1, 1))
                 | Inl NotAnError \<Rightarrow> (Inl NotAnError, st1, 1))))"

text \<open>
  Traces of the two private operations on the counters, as the public methods run them:
  a quota check at a date, or an increment.
\<close>

datatype event = CheckQuota string | IncrementUsage

fun step :: "GeminiService \<Rightarrow> GlobalState \<Rightarrow> event \<Rightarrow> GlobalState" where
  "step svc st (CheckQuota today) = snd (checkQuota svc today st)"
| "step svc st IncrementUsage = incrementUsage st"

declare step.simps [simp del]

definition run :: "GeminiService \<Rightarrow> GlobalState \<Rightarrow> event list \<Rightarrow> GlobalState" where
  "run svc st evs = foldl (step svc) st evs"

section \<open>The specification's descriptions, as definitions\<close>

text \<open>
  The specification describes the end of a brace-delimited function by the running count
  of braces from the start line: \<open>{\<close> counts +1 and \<open>}\<close> counts -1 over all characters.
  \<open>braceBalance\<close> is that count over a stretch of text.
\<close>

definition braceBalance :: "string \<Rightarrow> int" where
  "braceBalance s = int (count_list s CHR ''{'') - int (count_list s CHR ''}'')"

text \<open>
  As the claim words it, the end is the first line on which the running count returns to
  exactly 0 once a \<open>{\<close> has been seen: the first line with a character after which the
  text from the start line on holds a \<open>{\<close> and has count 0. Without such a line it is the
  start line.
\<close>

definition returnsToZeroOn :: "string list \<Rightarrow> nat \<Rightarrow> nat \<Rightarrow> bool" where
  "returnsToZeroOn lines start i =
     list_ex (\<lambda>k. let seen = concat (slice lines start i) @ take k (lines ! i)
                  in CHR ''{'' \<in> set seen \<and> braceBalance seen = 0)
       [1..<Suc (length (lines ! i))]"

definition claimedBraceEnd :: "string list \<Rightarrow> nat \<Rightarrow> nat" where
  "claimedBraceEnd lines start =
     (case find (returnsToZeroOn lines start) [start..<length lines] of
        Some i \<Rightarrow> i
      | None \<Rightarrow> start)"

text \<open>
  The amended description reads the count where a line ends: the end is the first line at
  whose end a \<open>{\<close> has been seen and the count is 0; without such a line it is the start
  line.
\<close>

definition balancedAt :: "string list \<Rightarrow> nat \<Rightarrow> nat \<Rightarrow> bool" where
  "balancedAt lines start i =
     (let seen = concat (slice lines start (i + 1))
      in CHR ''{'' \<in> set seen \<and> braceBalance seen = 0)"

definition specBraceEnd :: "string list \<Rightarrow> nat \<Rightarrow> nat" where
  "specBraceEnd lines start =
     (case find (balancedAt lines start) [start..<length lines] of
        Some i \<Rightarrow> i
      | None \<Rightarrow> start)"

text \<open>
  For Python the specification describes the end as the line before the first later line
  that is neither blank nor a comment and whose indentation width is at most that of the
  start line; without such a line it is the last line of the document.
\<close>

definition indentWidth :: "string \<Rightarrow> nat" where
  "indentWidth line = length (takeWhile isSpace line)"

definition isDedent :: "string list \<Rightarrow> nat \<Rightarrow> nat \<Rightarrow> bool" where
  "isDedent lines start i =
     (let t = trim (lines ! i)
      in t \<noteq> [] \<and> \<not> startsWith t ''#'' \<and> indentWidth (lines ! i) \<le> indentWidth (lines ! start))"

definition specPythonEnd :: "string list \<Rightarrow> nat \<Rightarrow> nat" where
  "specPythonEnd lines start =
     (case find (isDedent lines start) [start + 1..<length lines] of
        Some i \<Rightarrow> i - 1
      | None \<Rightarrow> length lines - 1)"

text \<open>
  The specification speaks of the persisted date and of the two counters; these read them
  as \<^verbatim>\<open>get\<close> with its default does.
\<close>

definition storedDate :: "GlobalState \<Rightarrow> string" where
  "storedDate st = memGet (lastUsageDate st) []"

definition todayCount :: "GlobalState \<Rightarrow> int" where
  "todayCount st = memGet (todayUsage st) 0"

definition totalCount :: "GlobalState \<Rightarrow> int" where
  "totalCount st = memGet (totalUsage st) 0"




text \<open>
  The counters that the service writes are doubles holding whole numbers; those it can reach
  from an empty state lie between 0 and \<open>2 ^ 53\<close>.
\<close>

definition countersInRange :: "GlobalState \<Rightarrow> bool" where
  "countersInRange st =
     (0 \<le> todayCount st \<and> todayCount st \<le> 2 ^ 53 \<and> 0 \<le> totalCount st \<and> totalCount st \<le> 2 ^ 53)"

section \<open>Properties\<close>

subsection \<open>The end of a brace-delimited function\<close>

lemma braceBalance_append: "braceBalance (a @ b) = braceBalance a + braceBalance b"
  by (simp add: braceBalance_def)

lemma countBraces_eq:
  "countBraces s (n, b) = (n + braceBalance s, b \<or> CHR ''{'' \<in> set s)"
  by (induction s arbitrary: n b) (auto simp: braceBalance_def)

lemma slice_Suc:
  "start \<le> i \<Longrightarrow> i < length lines \<Longrightarrow>
   slice lines start (i + 1) = slice lines start i @ [lines ! i]"
  by (simp add: slice_def Suc_diff_le take_Suc_conv_app_nth)

text \<open>The loop invariant: the accumulator is the count over the lines scanned so far.\<close>

lemma braceScan_find:
  "start \<le> i \<Longrightarrow>
   acc = (braceBalance (concat (slice lines start i)),
          CHR ''{'' \<in> set (concat (slice lines start i))) \<Longrightarrow>
   braceScan lines start i acc =
     (case find (balancedAt lines start) [i..<length lines] of Some j \<Rightarrow> j | None \<Rightarrow> start)"
proof (induction lines start i acc rule: braceScan.induct)
  case (1 lines start i acc)
  show ?case
  proof (cases "i < length lines")
    case False
    then show ?thesis by (subst braceScan.simps) simp
  next
    case True
    let ?seg = "concat (slice lines start i)"
    have sl: "concat (slice lines start (i + 1)) = ?seg @ lines ! i"
      using slice_Suc[OF "1.prems"(1) True] by simp
    have cb: "countBraces (lines ! i) acc =
        (braceBalance (concat (slice lines start (i + 1))),
         CHR ''{'' \<in> set (concat (slice lines start (i + 1))))"
      using "1.prems"(2) sl by (auto simp: countBraces_eq braceBalance_append)
    have upt: "[i..<length lines] = i # [i + 1..<length lines]"
      using True by (simp add: upt_conv_Cons)
    show ?thesis
    proof (cases "balancedAt lines start i")
      case True
      have "braceScan lines start i acc = i"
        by (subst braceScan.simps)
           (use True \<open>i < length lines\<close> cb in \<open>auto simp: balancedAt_def Let_def\<close>)
      then show ?thesis using True upt by simp
    next
      case False
      have nb: "\<not> (CHR ''{'' \<in> set (concat (slice lines start (i + 1))) \<and>
                 braceBalance (concat (slice lines start (i + 1))) = 0)"
        using False by (simp add: balancedAt_def Let_def)
      have le: "start \<le> i + 1" using "1.prems"(1) by simp
      have "braceScan lines start i acc =
          braceScan lines start (i + 1) (braceBalance (concat (slice lines start (i + 1))),
             CHR ''{'' \<in> set (concat (slice lines start (i + 1))))"
        by (subst braceScan.simps) (use nb \<open>i < length lines\<close> cb in auto)
      also have "\<dots> = (case find (balancedAt lines start) [i + 1..<length lines] of
                          Some j \<Rightarrow> j | None \<Rightarrow> start)"
        by (rule "1.IH"[OF True refl cb[symmetric] nb le refl])
      finally show ?thesis using False upt by simp
    qed
  qed
qed

text \<open>
  What the search of the specification gives, spelled out: the first line from the start
  line on that is balanced, or the start line when no line is.
\<close>

lemma find_upt_first:
  "find P [a..<n] = Some k \<longleftrightarrow> a \<le> k \<and> k < n \<and> P k \<and> (\<forall>j. a \<le> j \<and> j < k \<longrightarrow> \<not> P j)"
proof
  assume "find P [a..<n] = Some k"
  then obtain i where i: "i < length [a..<n]" "P ([a..<n] ! i)" "k = [a..<n] ! i"
    "\<forall>j<i. \<not> P ([a..<n] ! j)"
    unfolding find_Some_iff by blast
  then have k: "k = a + i" "i < n - a" by simp_all
  have "\<not> P j" if "a \<le> j \<and> j < k" for j
  proof -
    from that k have "j - a < i" by auto
    with i(4) have "\<not> P ([a..<n] ! (j - a))" by blast
    moreover have "a + (j - a) < n" using that k by linarith
    then have "[a..<n] ! (j - a) = a + (j - a)" by (rule nth_upt)
    then have "[a..<n] ! (j - a) = j" using that by simp
    ultimately show ?thesis by simp
  qed
  then show "a \<le> k \<and> k < n \<and> P k \<and> (\<forall>j. a \<le> j \<and> j < k \<longrightarrow> \<not> P j)"
    using i k by auto
next
  assume r: "a \<le> k \<and> k < n \<and> P k \<and> (\<forall>j. a \<le> j \<and> j < k \<longrightarrow> \<not> P j)"
  then have "k - a < length [a..<n] \<and> P ([a..<n] ! (k - a)) \<and> k = [a..<n] ! (k - a) \<and>
    (\<forall>j<k - a. \<not> P ([a..<n] ! j))"
    by auto
  then show "find P [a..<n] = Some k" unfolding find_Some_iff by blast
qed

lemma find_upt_none: "find P [a..<n] = None \<longleftrightarrow> (\<forall>j. a \<le> j \<and> j < n \<longrightarrow> \<not> P j)"
  by (auto simp: find_None_iff)

lemma specBraceEnd_first:
  "specBraceEnd lines start = e \<longleftrightarrow>
     (start \<le> e \<and> e < length lines \<and> balancedAt lines start e \<and>
        (\<forall>j. start \<le> j \<and> j < e \<longrightarrow> \<not> balancedAt lines start j)) \<or>
     (e = start \<and> (\<forall>j. start \<le> j \<and> j < length lines \<longrightarrow> \<not> balancedAt lines start j))"
proof (cases "find (balancedAt lines start) [start..<length lines]")
  case None
  then show ?thesis
    using None[unfolded find_upt_none] by (auto simp: specBraceEnd_def)
next
  case (Some k)
  then show ?thesis
    using Some[unfolded find_upt_first]
    by (auto simp: specBraceEnd_def) (metis not_less_iff_gr_or_eq)+
qed

text \<open>
  Claim C2, as amended. For every language other than Python and every document,
  \<^verbatim>\<open>findFunctionEnd\<close> returns the first line, from the start line on, at whose end a \<open>{\<close>
  has been seen since the start line and the running count of \<open>{\<close> (+1) and \<open>}\<close> (-1)
  over all characters is exactly 0; when there is no such line up to the end of the
  document, it returns the start line itself.
\<close>

theorem findFunctionEnd_brace_end:
  "language \<noteq> ''python'' \<Longrightarrow>
   findFunctionEnd lines start language = Inr (specBraceEnd lines start)"
  using braceScan_find[of start start "(0, False)" lines]
  by (simp add: findFunctionEnd_def specBraceEnd_def slice_def braceBalance_def)

theorem findFunctionEnd_brace_end_witness:
  "''javascript'' \<noteq> ''python'' \<and>
   findFunctionEnd [''function add(a, b) {'', ''  return a + b;'', ''}''] 0 ''javascript'' = Inr 2"
proof -
  have h: "''javascript'' \<noteq> ''python''" by simp
  have "specBraceEnd [''function add(a, b) {'', ''  return a + b;'', ''}''] 0 = 2"
    by code_simp
  with findFunctionEnd_brace_end[OF h, of "[''function add(a, b) {'', ''  return a + b;'', ''}'']" 0] h
  show ?thesis by simp
qed

text \<open>
  The claim as it was stated takes the first line on which the running count returns to 0,
  wherever on the line. On the lines \<open>function a() {\<close>, \<open>} function b() {\<close>, \<open>}\<close> the
  count returns to 0 after the first character of the second line, where it is 1 again at
  the end of the line: the code returns the third line, and for the first two lines alone
  the start line.
\<close>

theorem findFunctionEnd_brace_running_count_counterexample:
  "returnsToZeroOn [''function a() {'', ''} function b() {'', ''}''] 0 1 \<and>
   claimedBraceEnd [''function a() {'', ''} function b() {'', ''}''] 0 = 1 \<and>
   findFunctionEnd [''function a() {'', ''} function b() {'', ''}''] 0 ''javascript'' = Inr 2 \<and>
   claimedBraceEnd [''function a() {'', ''} function b() {''] 0 = 1 \<and>
   findFunctionEnd [''function a() {'', ''} function b() {''] 0 ''javascript'' = Inr 0"
  by code_simp

subsection \<open>The end of a Python function\<close>

lemma starIter_ws:
  "length s \<le> n \<Longrightarrow>
   \<exists>p rest. starIter (rmatch (Atom WS)) n (prev, s, cap) = (p, dropWhile isSpace s, cap) # rest"
proof (induction n arbitrary: prev s)
  case 0
  then show ?case by simp
next
  case (Suc n)
  show ?case
  proof (cases s)
    case Nil
    then show ?thesis by simp
  next
    case (Cons x xs)
    show ?thesis
    proof (cases "isSpace x")
      case True
      from Suc.prems Cons have "length xs \<le> n" by simp
      from Suc.IH[OF this, of "Some x"] obtain p rest where
        "starIter (rmatch (Atom WS)) n (Some x, xs, cap) = (p, dropWhile isSpace xs, cap) # rest"
        by blast
      then show ?thesis using Cons True by simp
    next
      case False
      then show ?thesis using Cons by simp
    qed
  qed
qed

lemma length_dropWhile_take:
  "take (length s - length (dropWhile P s)) s = takeWhile P s"
  by (induction s) (auto simp: Suc_diff_le length_dropWhile_le)

lemma rmatch_indentRe:
  "\<exists>p rest. rmatch indentRe (None, line, None) =
     (p, dropWhile isSpace line, Some (takeWhile isSpace line)) # rest"
proof -
  obtain p rest where
    "starIter (rmatch (Atom WS)) (length line) (None, line, None) =
       (p, dropWhile isSpace line, None) # rest"
    using starIter_ws[of line "length line" None None] by blast
  then show ?thesis
    by (simp add: indentRe_def seqs_def ws0_def length_dropWhile_take)
qed

text \<open>\<^verbatim>\<open>getIndentLevel\<close> never throws: it is the number of leading white-space characters.\<close>

lemma getIndentLevel_eq: "getIndentLevel line = Inr (indentWidth line)"
proof -
  obtain p rest where
    "rmatch indentRe (None, line, None) =
       (p, dropWhile isSpace line, Some (takeWhile isSpace line)) # rest"
    using rmatch_indentRe by blast
  then show ?thesis
    by (simp add: getIndentLevel_def jsMatch_def indentWidth_def
        execFrom.simps[of indentRe None line])
qed

lemma pyScan_find:
  "pyScan lines (indentWidth (lines ! start)) i =
     Inr (case find (isDedent lines start) [i..<length lines] of
            Some j \<Rightarrow> j - 1
          | None \<Rightarrow> length lines - 1)"
proof (induction lines "indentWidth (lines ! start)" i rule: pyScan.induct)
  case (1 lines i)
  show ?case
  proof (cases "i < length lines")
    case False
    then show ?thesis by (subst pyScan.simps) simp
  next
    case True
    then have upt: "[i..<length lines] = i # [i + 1..<length lines]"
      by (simp add: upt_conv_Cons)
    show ?thesis
    proof (cases "isDedent lines start i")
      case d: True
      have "pyScan lines (indentWidth (lines ! start)) i = Inr (i - 1)"
        by (subst pyScan.simps)
           (use d True in \<open>auto simp: isDedent_def Let_def getIndentLevel_eq\<close>)
      then show ?thesis using d upt by simp
    next
      case d: False
      have "pyScan lines (indentWidth (lines ! start)) i =
            pyScan lines (indentWidth (lines ! start)) (i + 1)"
        by (subst pyScan.simps)
           (use d True in \<open>auto simp: isDedent_def Let_def getIndentLevel_eq\<close>)
      also have "\<dots> = Inr (case find (isDedent lines start) [i + 1..<length lines] of
            Some j \<Rightarrow> j - 1 | None \<Rightarrow> length lines - 1)"
      proof (cases "trim (lines ! i) = [] \<or> startsWith (trim (lines ! i)) ''#''")
        case True
        show ?thesis by (rule "1.hyps"(1)[OF \<open>i < length lines\<close> refl True])
      next
        case False
        have ni: "\<not> (indentWidth (lines ! i) \<le> indentWidth (lines ! start) \<and>
                    trim (lines ! i) \<noteq> [])"
          using d False by (auto simp: isDedent_def Let_def)
        show ?thesis
          by (rule "1.hyps"(2)[OF \<open>i < length lines\<close> refl False getIndentLevel_eq ni])
      qed
      finally show ?thesis using d upt by simp
    qed
  qed
qed

text \<open>
  What the search of the specification gives for Python, spelled out: the line before the
  first dedented line after the start line, or the last line when there is none.
\<close>

lemma specPythonEnd_first:
  "specPythonEnd lines start = e \<longleftrightarrow>
     (\<exists>k. e = k - 1 \<and> start < k \<and> k < length lines \<and> isDedent lines start k \<and>
        (\<forall>j. start < j \<and> j < k \<longrightarrow> \<not> isDedent lines start j)) \<or>
     (e = length lines - 1 \<and>
        (\<forall>j. start < j \<and> j < length lines \<longrightarrow> \<not> isDedent lines start j))"
proof (cases "find (isDedent lines start) [start + 1..<length lines]")
  case None
  then show ?thesis
    using None[unfolded find_upt_none] by (auto simp: specPythonEnd_def Suc_le_eq)
next
  case (Some k)
  have k: "start < k \<and> k < length lines \<and> isDedent lines start k \<and>
        (\<forall>j. start < j \<and> j < k \<longrightarrow> \<not> isDedent lines start j)"
    using Some[unfolded find_upt_first] by (auto simp: Suc_le_eq)
  have e: "specPythonEnd lines start = k - 1" using Some by (simp add: specPythonEnd_def)
  show ?thesis
  proof
    assume "specPythonEnd lines start = e"
    then show "(\<exists>k. e = k - 1 \<and> start < k \<and> k < length lines \<and> isDedent lines start k \<and>
        (\<forall>j. start < j \<and> j < k \<longrightarrow> \<not> isDedent lines start j)) \<or>
     (e = length lines - 1 \<and>
        (\<forall>j. start < j \<and> j < length lines \<longrightarrow> \<not> isDedent lines start j))"
      using k e by auto
  next
    assume "(\<exists>k. e = k - 1 \<and> start < k \<and> k < length lines \<and> isDedent lines start k \<and>
        (\<forall>j. start < j \<and> j < k \<longrightarrow> \<not> isDedent lines start j)) \<or>
     (e = length lines - 1 \<and>
        (\<forall>j. start < j \<and> j < length lines \<longrightarrow> \<not> isDedent lines start j))"
    then show "specPythonEnd lines start = e"
    proof
      assume "\<exists>k. e = k - 1 \<and> start < k \<and> k < length lines \<and> isDedent lines start k \<and>
        (\<forall>j. start < j \<and> j < k \<longrightarrow> \<not> isDedent lines start j)"
      then obtain k' where k': "e = k' - 1" "start < k'" "k' < length lines"
        "isDedent lines start k'" "\<forall>j. start < j \<and> j < k' \<longrightarrow> \<not> isDedent lines start j"
        by blast
      have "k' = k" using k k' by (metis not_less_iff_gr_or_eq)
      then show ?thesis using e k' by simp
    next
      assume "e = length lines - 1 \<and>
        (\<forall>j. start < j \<and> j < length lines \<longrightarrow> \<not> isDedent lines start j)"
      then show ?thesis using k by blast
    qed
  qed
qed

text \<open>
  Claim C1, as amended. For Python input and a start line of the document,
  \<^verbatim>\<open>findFunctionEnd\<close> returns the line immediately preceding the first later line that
  is neither blank nor a comment and whose indentation is at or below the start line's,
  and the last line index when there is no such line. For the document lines
  \<open>def f():\<close>, \<open>    return 1\<close>, the empty line, \<open>def g():\<close> and start line 0 it
  returns 2, the blank line, which is the line immediately preceding \<open>def g():\<close>.
\<close>

theorem findFunctionEnd_python_end:
  "(start < length lines \<longrightarrow>
      findFunctionEnd lines start ''python'' = Inr (specPythonEnd lines start)) \<and>
   findFunctionEnd [''def f():'', ''    return 1'', '''', ''def g():''] 0 ''python'' = Inr 2"
proof
  show "start < length lines \<longrightarrow>
      findFunctionEnd lines start ''python'' = Inr (specPythonEnd lines start)"
    by (simp add: findFunctionEnd_def getIndentLevel_eq pyScan_find specPythonEnd_def)
  show "findFunctionEnd [''def f():'', ''    return 1'', '''', ''def g():''] 0 ''python'' = Inr 2"
    by code_simp
qed

theorem findFunctionEnd_python_end_witness:
  "0 < length [''def f():'', ''    return 1''] \<and>
   findFunctionEnd [''def f():'', ''    return 1''] 0 ''python'' = Inr 1"
proof -
  have h: "0 < length [''def f():'', ''    return 1'']" by simp
  have "specPythonEnd [''def f():'', ''    return 1''] 0 = 1" by code_simp
  with findFunctionEnd_python_end[of 0 "[''def f():'', ''    return 1'']"] h
  show ?thesis by simp
qed

text \<open>
  The claim as it was stated gives 1 as the end line of that example; the program
  returns 2.
\<close>

theorem findFunctionEnd_python_example_counterexample:
  "findFunctionEnd [''def f():'', ''    return 1'', '''', ''def g():''] 0 ''python'' \<noteq> Inr 1"
  by code_simp

subsection \<open>Prefixes, suffixes and trimming\<close>

lemma startsWith_iff: "startsWith s p \<longleftrightarrow> (\<exists>u. s = p @ u)"
  unfolding startsWith_def
  by (metis append_eq_conv_conj append_take_drop_id)

lemma endsWith_iff: "endsWith s p \<longleftrightarrow> (\<exists>u. s = u @ p)"
proof
  assume "endsWith s p"
  then have "s = take (length s - length p) s @ p"
    unfolding endsWith_def by (metis append_take_drop_id)
  then show "\<exists>u. s = u @ p" ..
next
  assume "\<exists>u. s = u @ p"
  then show "endsWith s p" unfolding endsWith_def by auto
qed

lemma startsWith_simps:
  "startsWith s [] = True"
  "startsWith [] (c # p) = False"
  "startsWith (x # xs) (c # p) = (x = c \<and> startsWith xs p)"
  by (auto simp: startsWith_def)

lemma startsWith_append: "startsWith c p \<Longrightarrow> startsWith (c @ y) p"
  by (auto simp: startsWith_iff)

lemma endsWith_append: "endsWith c p \<Longrightarrow> endsWith (x @ c) p"
  by (auto simp: endsWith_iff)

lemma endsWith_rev: "endsWith s p \<longleftrightarrow> startsWith (rev s) (rev p)"
  unfolding endsWith_iff startsWith_iff
  by (metis rev_append rev_rev_ident)

lemma endsWith_open_prefix: "endsWith (''/**'' @ [NL] @ c) ''*/'' \<longleftrightarrow> endsWith c ''*/''"
proof (cases "rev c")
  case Nil
  then show ?thesis by (simp add: endsWith_rev startsWith_def NL_def)
next
  case (Cons x xs)
  then show ?thesis
    by (cases xs) (simp_all add: endsWith_rev startsWith_def NL_def)
qed

lemma endsWith_close_suffix: "endsWith (x @ [NL] @ '' */'') ''*/''"
  by (simp add: endsWith_iff)

lemma trim_id:
  "s \<noteq> [] \<Longrightarrow> \<not> isSpace (hd s) \<Longrightarrow> \<not> isSpace (last s) \<Longrightarrow> trim s = s"
proof -
  assume a: "s \<noteq> []" "\<not> isSpace (hd s)" "\<not> isSpace (last s)"
  then have 1: "dropWhile isSpace s = s" by (cases s) auto
  from a have "rev s \<noteq> []" "\<not> isSpace (hd (rev s))" by (simp_all add: hd_rev)
  then have 2: "dropWhile isSpace (rev s) = rev s" by (cases "rev s") auto
  show ?thesis by (simp add: trim_def 1 2)
qed

subsection \<open>Locating the function at a line\<close>





















text \<open>
  Claim C9. For the three-line document \<open>function add(a, b) {\<close>, \<open>  return a + b;\<close>,
  \<open>}\<close> with language \<open>javascript\<close> and the query point on line 0,
  \<^verbatim>\<open>findFunctionAtPosition\<close> returns a function with name \<open>add\<close>, parameters \<open>a\<close> and
  \<open>b\<close>, start line 0 and end line 2.
\<close>

theorem locate_add_example:
  "findFunctionAtPosition
     (''function add(a, b) {'' @ [NL] @ ''  return a + b;'' @ [NL] @ ''}'') 0 ''javascript'' =
   Inr (Some \<lparr> name = ''add'', startLine = 0, endLine = 2, parameters = [''a'', ''b''],
               returnType = None, isAsync = False, isMethod = False, className = None,
               code = ''function add(a, b) {'' @ [NL] @ ''  return a + b;'' @ [NL] @ ''}'' \<rparr>)"
  by code_simp

subsection \<open>The already-documented check\<close>

text \<open>
  Claim C7. \<^verbatim>\<open>hasDocumentation\<close> returns false for line number 0; for a line number
  greater than 0 (whose preceding line the document has) it returns true if and only if
  the trimmed text of the immediately preceding line ends with \<open>*/\<close>, ends with three
  double quotes, ends with three single quotes, or starts with \<open>///\<close>.
\<close>

theorem hasDocumentation_preceding_line:
  "hasDocumentation document 0 = Inr False \<and>
   (0 < n \<and> n \<le> length document \<longrightarrow>
      hasDocumentation document n =
        Inr ((\<exists>u. trim (document ! (n - 1)) = u @ ''*/'') \<or>
             (\<exists>u. trim (document ! (n - 1)) = u @ [DQ, DQ, DQ]) \<or>
             (\<exists>u. trim (document ! (n - 1)) = u @ [SQ, SQ, SQ]) \<or>
             (\<exists>u. trim (document ! (n - 1)) = ''///'' @ u)))"
  by (auto simp: hasDocumentation_def lineAt_def Let_def endsWith_iff startsWith_iff)

theorem hasDocumentation_preceding_line_witness:
  "0 < (1::nat) \<and> 1 \<le> length [''  /** Adds. */  '', ''function add(a, b) {''] \<and>
   hasDocumentation [''  /** Adds. */  '', ''function add(a, b) {''] 1 = Inr True \<and>
   hasDocumentation [''  /** Adds. */  '', ''function add(a, b) {''] 0 = Inr False"
proof -
  have "endsWith (trim ''  /** Adds. */  '') ''*/''" by code_simp
  then have e: "\<exists>u. trim ''  /** Adds. */  '' = u @ ''*/''" by (simp add: endsWith_iff)
  show ?thesis
    using hasDocumentation_preceding_line[of "[''  /** Adds. */  '', ''function add(a, b) {'']" 1] e
    by simp
qed

subsection \<open>Cleaning the generated documentation\<close>

text \<open>
  Claim C3, as amended. For the styles \<open>jsdoc\<close>, \<open>tsdoc\<close> and \<open>javadoc\<close>,
  \<^verbatim>\<open>cleanDocumentation\<close> returns text that starts with \<open>/**\<close> and ends with \<open>*/\<close>: the
  text with its fences stripped, with a missing opening delimiter put in front and a missing
  closing delimiter put behind, and none added that is already there. For every other
  style, \<open>doxygen\<close> and \<open>phpdoc\<close> among them, it returns the stripped text and adds no
  delimiter.
\<close>

theorem cleanDocumentation_delimiters:
  "(style = ''jsdoc'' \<or> style = ''tsdoc'' \<or> style = ''javadoc'' \<longrightarrow>
      startsWith (cleanDocumentation doc style) ''/**'' \<and>
      endsWith (cleanDocumentation doc style) ''*/'' \<and>
      cleanDocumentation doc style =
        (if startsWith (stripFences doc) ''/**'' then [] else ''/**'' @ [NL]) @ stripFences doc @
        (if endsWith (stripFences doc) ''*/'' then [] else [NL] @ '' */'')) \<and>
   (style \<noteq> ''jsdoc'' \<and> style \<noteq> ''tsdoc'' \<and> style \<noteq> ''javadoc'' \<longrightarrow>
      cleanDocumentation doc style = stripFences doc)"
proof -
  let ?c = "stripFences doc"
  let ?c1 = "if \<not> startsWith ?c ''/**'' then ''/**'' @ [NL] @ ?c else ?c"
  let ?c2 = "if \<not> endsWith ?c1 ''*/'' then ?c1 @ [NL] @ '' */'' else ?c1"
  have s1: "startsWith ?c1 ''/**''" by (simp add: startsWith_def)
  have e1: "endsWith ?c1 ''*/'' \<longleftrightarrow> endsWith ?c ''*/''"
    using endsWith_open_prefix[of ?c] by simp
  have s2: "startsWith ?c2 ''/**''"
    using s1 startsWith_append[of ?c1 "''/**''" "[NL] @ '' */''"] by simp
  have e2: "endsWith ?c2 ''*/''"
    using endsWith_close_suffix[of ?c1] by simp
  have eq: "?c2 = (if startsWith ?c ''/**'' then [] else ''/**'' @ [NL]) @ ?c @
        (if endsWith ?c ''*/'' then [] else [NL] @ '' */'')"
    using e1 by simp
  have brace: "style = ''jsdoc'' \<or> style = ''tsdoc'' \<or> style = ''javadoc'' \<Longrightarrow>
      cleanDocumentation doc style = ?c2"
    by (simp add: cleanDocumentation_def Let_def)
  have other: "style \<noteq> ''jsdoc'' \<and> style \<noteq> ''tsdoc'' \<and> style \<noteq> ''javadoc'' \<Longrightarrow>
      cleanDocumentation doc style = ?c"
    by (simp add: cleanDocumentation_def Let_def)
  show ?thesis
  proof (intro conjI impI)
    assume b: "style = ''jsdoc'' \<or> style = ''tsdoc'' \<or> style = ''javadoc''"
    show "startsWith (cleanDocumentation doc style) ''/**''" using brace[OF b] s2 by simp
    show "endsWith (cleanDocumentation doc style) ''*/''" using brace[OF b] e2 by simp
    show "cleanDocumentation doc style =
        (if startsWith (stripFences doc) ''/**'' then [] else ''/**'' @ [NL]) @ stripFences doc @
        (if endsWith (stripFences doc) ''*/'' then [] else [NL] @ '' */'')"
      using brace[OF b] eq by simp
  next
    assume "style \<noteq> ''jsdoc'' \<and> style \<noteq> ''tsdoc'' \<and> style \<noteq> ''javadoc''"
    then show "cleanDocumentation doc style = stripFences doc" by (rule other)
  qed
qed

theorem cleanDocumentation_delimiters_witness:
  "(''javadoc'' = ''jsdoc'' \<or> ''javadoc'' = ''tsdoc'' \<or> ''javadoc'' = ''javadoc'') \<and>
   cleanDocumentation ''Adds two numbers.'' ''javadoc'' =
     ''/**'' @ [NL] @ ''Adds two numbers.'' @ [NL] @ '' */'' \<and>
   (''google'' \<noteq> ''jsdoc'' \<and> ''google'' \<noteq> ''tsdoc'' \<and> ''google'' \<noteq> ''javadoc'') \<and>
   cleanDocumentation ''Adds two numbers.'' ''google'' = ''Adds two numbers.''"
proof -
  have s: "stripFences ''Adds two numbers.'' = ''Adds two numbers.''" by code_simp
  have a: "\<not> startsWith ''Adds two numbers.'' ''/**''" by code_simp
  have b: "\<not> endsWith ''Adds two numbers.'' ''*/''" by code_simp
  show ?thesis
    using cleanDocumentation_delimiters[of "''javadoc''" "''Adds two numbers.''"]
      cleanDocumentation_delimiters[of "''google''" "''Adds two numbers.''"] s a b
    by simp
qed

text \<open>
  The claim as it was stated counts \<open>doxygen\<close> and \<open>phpdoc\<close>, the styles chosen for C, C++
  and PHP, among the styles that get the delimiters; the program leaves their text as it is.
\<close>

theorem cleanDocumentation_doxygen_counterexample:
  "autoStyle ''cpp'' = Some ''doxygen'' \<and> autoStyle ''php'' = Some ''phpdoc'' \<and>
   \<not> startsWith (cleanDocumentation ''Adds two numbers.'' ''doxygen'') ''/**'' \<and>
   \<not> endsWith (cleanDocumentation ''Adds two numbers.'' ''phpdoc'') ''*/''"
  by code_simp

text \<open>The scenario of the specification: the fences go, the delimiters stay single.\<close>

lemma cleanDocumentation_fenced_example:
  "cleanDocumentation ([BQ, BQ, BQ, NL] @ ''/**'' @ [NL] @ '' * Adds two numbers.'' @ [NL] @
       '' */'' @ [NL, BQ, BQ, BQ]) ''jsdoc'' =
   ''/**'' @ [NL] @ '' * Adds two numbers.'' @ [NL] @ '' */''"
  by code_simp

text \<open>A text without three back quotes in a row has no match of either fence pattern.\<close>

lemma rmatch_Seq: "rmatch (Seq r1 r2) st = concat (map (rmatch r2) (rmatch r1 st))"
  by simp

lemma rmatch_Seq_Nil: "rmatch r1 st = [] \<Longrightarrow> rmatch (Seq r1 r2) st = []"
  by simp

lemma lit_Cons: "lit (c # p) = Seq (Atom (Lit c)) (lit p)"
  by (simp add: lit_def)

lemma rmatch_lit_Nil: "rmatch (lit []) (prev, s, cap) = [(prev, s, cap)]"
  by (simp add: lit_def)

lemma rmatch_lit_Cons_Nil: "rmatch (lit (c # p)) (prev, [], cap) = []"
  by (simp add: lit_Cons)

lemma rmatch_lit_Cons_Cons:
  "rmatch (lit (c # p)) (prev, x # xs, cap) =
     (if x = c then rmatch (lit p) (Some x, xs, cap) else [])"
  by (simp add: lit_Cons)

lemma rmatch_lit:
  "rmatch (lit p) (prev, s, cap) =
     (if startsWith s p then [(if p = [] then prev else Some (last p), drop (length p) s, cap)]
      else [])"
proof (induction p arbitrary: prev s)
  case Nil
  then show ?case by (simp add: rmatch_lit_Nil startsWith_simps)
next
  case (Cons c p)
  show ?case
  proof (cases s)
    case Nil
    then show ?thesis by (simp add: rmatch_lit_Cons_Nil startsWith_simps)
  next
    case sc: (Cons x xs)
    show ?thesis
    proof (cases "x = c")
      case True
      then show ?thesis unfolding sc rmatch_lit_Cons_Cons Cons.IH
        by (simp add: startsWith_simps)
    next
      case False
      then show ?thesis unfolding sc rmatch_lit_Cons_Cons
        by (simp add: startsWith_simps)
    qed
  qed
qed

lemma rmatch_fence_lit:
  "\<not> startsWith s [BQ, BQ, BQ] \<Longrightarrow> rmatch (lit [BQ, BQ, BQ]) (prev, s, cap) = []"
  by (simp only: rmatch_lit if_False)

lemma rmatch_BolM_cases:
  "rmatch BolM (prev, s, cap) = [] \<or> rmatch BolM (prev, s, cap) = [(prev, s, cap)]"
  by (simp split: option.split)

lemma rmatch_fenceOpenRe:
  assumes "\<not> startsWith s [BQ, BQ, BQ]"
  shows "rmatch fenceOpenRe (prev, s, cap) = []"
proof -
  let ?R = "Seq (lit [BQ, BQ, BQ]) (Seq (Star (Atom Word)) (Seq (opt (ch NL)) Eps))"
  have eq: "fenceOpenRe = Seq BolM ?R"
    by (simp only: fenceOpenRe_def seqs_def foldr.simps o_apply id_apply)
  have R: "rmatch ?R (prev, s, cap) = []"
    using rmatch_fence_lit[OF assms] by (rule rmatch_Seq_Nil)
  from rmatch_BolM_cases[of prev s cap] show ?thesis
  proof
    assume "rmatch BolM (prev, s, cap) = []"
    then show ?thesis by (simp only: eq rmatch_Seq[of BolM] list.map concat.simps)
  next
    assume "rmatch BolM (prev, s, cap) = [(prev, s, cap)]"
    then show ?thesis by (simp only: eq rmatch_Seq[of BolM] list.map concat.simps R append_Nil)
  qed
qed

lemma rmatch_fenceCloseRe:
  "\<not> startsWith s [BQ, BQ, BQ] \<Longrightarrow> rmatch fenceCloseRe (prev, s, cap) = []"
  using rmatch_fence_lit[of s prev cap]
  by (simp add: fenceCloseRe_def seqs_def)

lemma removeAll_no_match:
  "\<not> includesStr s [BQ, BQ, BQ] \<Longrightarrow>
   (\<And>prev s' cap. \<not> startsWith s' [BQ, BQ, BQ] \<Longrightarrow> rmatch r (prev, s', cap) = []) \<Longrightarrow>
   removeAll r prev s = s"
proof (induction s arbitrary: prev)
  case Nil
  have "\<not> startsWith [] [BQ, BQ, BQ]" by (simp add: startsWith_def)
  then have "rmatch r (prev, [], None) = []" by (rule Nil.prems(2))
  then show ?case by (subst removeAll.simps) simp
next
  case (Cons x xs)
  from Cons.prems(1) have ns: "\<not> startsWith (x # xs) [BQ, BQ, BQ]" and ni: "\<not> includesStr xs [BQ, BQ, BQ]"
    by simp_all
  have "rmatch r (prev, x # xs, None) = []" using ns by (rule Cons.prems(2))
  then have "removeAll r prev (x # xs) = x # removeAll r (Some x) xs"
    by (subst removeAll.simps) simp
  then show ?case using Cons.IH[OF ni Cons.prems(2)] by simp
qed

lemma stripFences_clean:
  assumes "startsWith t ''/**''" "endsWith t ''*/''" "\<not> includesStr t [BQ, BQ, BQ]"
  shows "stripFences t = t"
proof -
  obtain u where u: "t = ''/**'' @ u" using assms(1) by (auto simp: startsWith_iff)
  obtain v where v: "t = v @ ''*/''" using assms(2) by (auto simp: endsWith_iff)
  have ne: "t \<noteq> []" using u by simp
  have h: "hd t = CHR ''/''" using u by simp
  have l: "last t = CHR ''/''" using v by simp
  have r1: "removeAll fenceOpenRe None t = t"
    using assms(3) rmatch_fenceOpenRe by (rule removeAll_no_match)
  have r2: "removeAll fenceCloseRe None t = t"
    using assms(3) rmatch_fenceCloseRe by (rule removeAll_no_match)
  have "trim t = t" using ne h l by (simp add: trim_id isSpace_def)
  then show ?thesis by (simp add: stripFences_def r1 r2)
qed

text \<open>
  Claim C8. For every text that already starts with \<open>/**\<close> and ends with \<open>*/\<close> and
  contains no fenced code-block delimiter (no three back quotes in a row),
  \<^verbatim>\<open>cleanDocumentation\<close> returns the text unchanged, for \<open>jsdoc\<close> as for every style;
  so applying it twice yields the same as applying it once, and no delimiter is
  duplicated.
\<close>

theorem cleanDocumentation_idempotent:
  assumes "startsWith t ''/**''" "endsWith t ''*/''" "\<not> includesStr t [BQ, BQ, BQ]"
  shows "cleanDocumentation t style = t \<and>
         cleanDocumentation (cleanDocumentation t style) style = cleanDocumentation t style"
proof -
  have "cleanDocumentation t style = t"
    using assms stripFences_clean[OF assms] by (simp add: cleanDocumentation_def Let_def)
  then show ?thesis by simp
qed

theorem cleanDocumentation_idempotent_witness:
  "startsWith (''/**'' @ [NL] @ '' * Adds two numbers.'' @ [NL] @ '' */'') ''/**'' \<and>
   endsWith (''/**'' @ [NL] @ '' * Adds two numbers.'' @ [NL] @ '' */'') ''*/'' \<and>
   \<not> includesStr (''/**'' @ [NL] @ '' * Adds two numbers.'' @ [NL] @ '' */'') [BQ, BQ, BQ] \<and>
   cleanDocumentation (cleanDocumentation (''/**'' @ [NL] @ '' * Adds two numbers.'' @ [NL] @ '' */'') ''jsdoc'') ''jsdoc'' =
     ''/**'' @ [NL] @ '' * Adds two numbers.'' @ [NL] @ '' */''"
proof -
  let ?t = "''/**'' @ [NL] @ '' * Adds two numbers.'' @ [NL] @ '' */''"
  have a: "startsWith ?t ''/**''" by code_simp
  have b: "endsWith ?t ''*/''" by code_simp
  have c: "\<not> includesStr ?t [BQ, BQ, BQ]" by code_simp
  show ?thesis using a b c cleanDocumentation_idempotent[OF a b c, of "''jsdoc''"] by simp
qed

subsection \<open>The daily quota\<close>

text \<open>
  Claim C4, as amended. When a model has been initialised, the shared pool is in use, the
  stored usage date equals the current date and today's usage count has reached the daily
  pool limit of 20, \<^verbatim>\<open>generateDocumentation\<close> fails with the QUOTA error before the
  external generation call is attempted, and the persisted counters are left as they were.
  When no model has been initialised it fails with the API_KEY error instead, also before
  any external call and without touching the counters.
\<close>

theorem generateDocumentation_quota_exhausted:
  "(model svc \<noteq> None \<and> isUsingPool svc \<and> memGet (lastUsageDate st) [] = today \<and>
    20 \<le> memGet (todayUsage st) 0 \<longrightarrow>
      generateDocumentation svc today outcome st =
        (Inl (Error ''QUOTA: Daily request limit exceeded''), st, 0)) \<and>
   (model svc = None \<longrightarrow>
      generateDocumentation svc today outcome st =
        (Inl (Error ''API_KEY: Gemini API key not configured''), st, 0))"
  by (auto simp: generateDocumentation_def checkQuota_def Let_def DAILY_POOL_LIMIT_def)

theorem generateDocumentation_quota_exhausted_witness:
  "model (initializeApiKey ''pool-key'' True [] True) \<noteq> None \<and>
   isUsingPool (initializeApiKey ''pool-key'' True [] True) \<and>
   generateDocumentation (initializeApiKey ''pool-key'' True [] True) ''Mon Nov 02 2026''
     (Inr ''/** doc */'')
     \<lparr>lastUsageDate = Some ''Mon Nov 02 2026'', todayUsage = Some 20, totalUsage = Some 57\<rparr> =
   (Inl (Error ''QUOTA: Daily request limit exceeded''),
    \<lparr>lastUsageDate = Some ''Mon Nov 02 2026'', todayUsage = Some 20, totalUsage = Some 57\<rparr>, 0)"
proof -
  have h: "model (initializeApiKey ''pool-key'' True [] True) \<noteq> None \<and>
           isUsingPool (initializeApiKey ''pool-key'' True [] True)"
    by (simp add: initializeApiKey_def initializeModel_def Let_def)
  show ?thesis
    using h generateDocumentation_quota_exhausted[of "initializeApiKey ''pool-key'' True [] True"
        "\<lparr>lastUsageDate = Some ''Mon Nov 02 2026'', todayUsage = Some 20, totalUsage = Some 57\<rparr>"
        "''Mon Nov 02 2026''" "Inr ''/** doc */''"]
    by (simp add: memGet_def)
qed

text \<open>
  The claim as it was stated does not ask for an initialised model. The service as the
  source constructs it for the shared pool (no key of the user, pool allowed, the pool key
  still the placeholder) has none, and the call fails with the API_KEY error.
\<close>

theorem generateDocumentation_quota_counterexample:
  "isUsingPool (initializeApiKey ''QUAD_POOL_PLACEHOLDER'' True [] True) \<and>
   memGet (lastUsageDate \<lparr>lastUsageDate = Some ''Mon Nov 02 2026'', todayUsage = Some 20,
                          totalUsage = Some 57\<rparr>) [] = ''Mon Nov 02 2026'' \<and>
   memGet (todayUsage \<lparr>lastUsageDate = Some ''Mon Nov 02 2026'', todayUsage = Some 20,
                       totalUsage = Some 57\<rparr>) 0 = 20 \<and>
   fst (generateDocumentation (initializeApiKey ''QUAD_POOL_PLACEHOLDER'' True [] True)
          ''Mon Nov 02 2026'' (Inr ''/** doc */'')
          \<lparr>lastUsageDate = Some ''Mon Nov 02 2026'', todayUsage = Some 20,
             totalUsage = Some 57\<rparr>) =
     Inl (Error ''API_KEY: Gemini API key not configured'')"
  by (simp add: initializeApiKey_def initializeModel_def Let_def memGet_def DAILY_POOL_LIMIT_def
      generateDocumentation_def)

subsection \<open>The usage counters\<close>

text \<open>Adding 1 to a counter: exact below \<open>2 ^ 53\<close>, lost at \<open>2 ^ 53\<close>.\<close>

lemma bitLength_le: "n < 2 ^ k \<Longrightarrow> bitLength n \<le> k"
proof (induction k arbitrary: n)
  case 0
  then show ?case by (subst bitLength.simps) simp
next
  case (Suc k)
  show ?case
  proof (cases "n \<le> 0")
    case True
    then show ?thesis by (subst bitLength.simps) simp
  next
    case False
    have "n div 2 < 2 ^ k" using Suc.prems by simp
    from Suc.IH[OF this] show ?thesis using False by (subst bitLength.simps) simp
  qed
qed

lemma bitLength_gt: "2 ^ k \<le> n \<Longrightarrow> k < bitLength n"
proof (induction k arbitrary: n)
  case 0
  then show ?case by (subst bitLength.simps) simp
next
  case (Suc k)
  have "(0::int) < 2 ^ Suc k" by simp
  then have pos: "\<not> n \<le> 0" using Suc.prems by linarith
  have "2 ^ k \<le> n div 2" using Suc.prems by simp
  from Suc.IH[OF this] show ?case using pos by (subst bitLength.simps) simp
qed

lemma bitLength_54:
  assumes "2 ^ 53 \<le> n" "n < 2 ^ 54"
  shows "bitLength n = 54"
  using bitLength_le[OF assms(2)] bitLength_gt[OF assms(1)] by simp

lemma roundDouble_exact:
  assumes "\<bar>x\<bar> < 2 ^ 53"
  shows "roundDouble x = x"
proof -
  have "bitLength \<bar>x\<bar> - 53 = 0" using bitLength_le[OF assms] by simp
  then have "roundDouble x = sgn x * \<bar>x\<bar>"
    by (simp add: roundDouble_def Let_def)
  then show ?thesis by (simp add: mult_sgn_abs)
qed

lemma roundDouble_top:
  "roundDouble (2 ^ 53) = 2 ^ 53"
  "roundDouble (2 ^ 53 + 1) = 2 ^ 53"
proof -
  have a: "bitLength \<bar>2 ^ 53 :: int\<bar> = 54" by (rule bitLength_54) simp_all
  have b: "bitLength \<bar>2 ^ 53 + 1 :: int\<bar> = 54" by (rule bitLength_54) simp_all
  show "roundDouble (2 ^ 53) = 2 ^ 53"
    unfolding roundDouble_def Let_def a by simp
  show "roundDouble (2 ^ 53 + 1) = 2 ^ 53"
    unfolding roundDouble_def Let_def b by simp
qed

lemma jsAdd_one:
  assumes "- (2 ^ 53) \<le> n" "n < 2 ^ 53"
  shows "jsAdd n 1 = n + 1"
proof (cases "n + 1 = 2 ^ 53")
  case True
  then show ?thesis using roundDouble_top by (simp add: jsAdd_def)
next
  case False
  then have "\<bar>n + 1\<bar> < 2 ^ 53" using assms by simp
  then show ?thesis by (simp add: jsAdd_def roundDouble_exact)
qed

lemma jsAdd_one_top: "jsAdd (2 ^ 53) 1 = 2 ^ 53"
  using roundDouble_top by (simp add: jsAdd_def)

lemma jsAdd_one_range:
  assumes "0 \<le> n" "n \<le> 2 ^ 53"
  shows "n \<le> jsAdd n 1 \<and> 0 \<le> jsAdd n 1 \<and> jsAdd n 1 \<le> 2 ^ 53"
proof (cases "n = 2 ^ 53")
  case True
  then show ?thesis using jsAdd_one_top by simp
next
  case False
  then have "jsAdd n 1 = n + 1" using assms by (intro jsAdd_one) simp_all
  then show ?thesis using assms False by simp
qed

text \<open>The steps of a trace, and what a generation call does to the persisted state.\<close>

lemma step_check_other_date:
  "storedDate st \<noteq> d \<Longrightarrow>
   step svc st (CheckQuota d) = st\<lparr>lastUsageDate := Some d, todayUsage := Some 0\<rparr>"
  by (simp add: step.simps checkQuota_def Let_def storedDate_def)

lemma step_check_same_date:
  "storedDate st = d \<Longrightarrow> step svc st (CheckQuota d) = st"
  by (simp add: step.simps checkQuota_def Let_def storedDate_def)

lemma step_increment:
  "step svc st IncrementUsage =
     st\<lparr>todayUsage := Some (jsAdd (todayCount st) 1),
        totalUsage := Some (jsAdd (totalCount st) 1)\<rparr>"
  by (simp add: step.simps incrementUsage_def Let_def todayCount_def totalCount_def)

lemma counts_simps:
  "storedDate (st\<lparr>lastUsageDate := Some d, todayUsage := Some n\<rparr>) = d"
  "todayCount (st\<lparr>lastUsageDate := Some d, todayUsage := Some n\<rparr>) = n"
  "totalCount (st\<lparr>lastUsageDate := Some d, todayUsage := Some n\<rparr>) = totalCount st"
  "storedDate (st\<lparr>todayUsage := Some n, totalUsage := Some k\<rparr>) = storedDate st"
  "todayCount (st\<lparr>todayUsage := Some n, totalUsage := Some k\<rparr>) = n"
  "totalCount (st\<lparr>todayUsage := Some n, totalUsage := Some k\<rparr>) = k"
  by (simp_all add: storedDate_def todayCount_def totalCount_def memGet_def)







text \<open>The counters of every state that the service can reach lie between 0 and \<open>2 ^ 53\<close>.\<close>

lemma step_in_range: "countersInRange st \<Longrightarrow> countersInRange (step svc st ev)"
proof (cases ev)
  case (CheckQuota d)
  assume r: "countersInRange st"
  show ?thesis
  proof (cases "storedDate st = d")
    case True
    then show ?thesis using r CheckQuota by (simp add: step_check_same_date)
  next
    case False
    then show ?thesis using r CheckQuota
      by (simp add: step_check_other_date countersInRange_def counts_simps)
  qed
next
  case IncrementUsage
  assume r: "countersInRange st"
  then show ?thesis
    using IncrementUsage jsAdd_one_range[of "todayCount st"] jsAdd_one_range[of "totalCount st"]
    by (simp add: step_increment countersInRange_def counts_simps)
qed

lemma run_in_range: "countersInRange st \<Longrightarrow> countersInRange (run svc st evs)"
  by (induction evs arbitrary: st) (simp_all add: run_def step_in_range)




lemma generateDocumentation_trace:
  "snd (generateDocumentation svc today outcome st) =
     (if model svc = None then (st, 0)
      else if \<not> fst (checkQuota svc today st) then (run svc st [CheckQuota today], 0)
      else if isl outcome then (run svc st [CheckQuota today], 1)
      else (run svc st [CheckQuota today, IncrementUsage], 1))"
  by (auto simp: generateDocumentation_def run_def step.simps split: prod.splits sum.splits thrown.splits bool.splits)






text \<open>
  Claim C10. \<^verbatim>\<open>getUsageStats\<close> only reads the persisted state: it leaves every persisted
  key as it was; when the stored usage date differs from the current date it reports 0
  requests for today and still resets neither the stored counter nor the stored date;
  and the pool remainder it reports is never negative.
\<close>

theorem getUsageStats_pure_read:
  "snd (getUsageStats svc today st) = st \<and>
   (memGet (lastUsageDate st) [] \<noteq> today \<longrightarrow>
      todayRequests (fst (getUsageStats svc today st)) = 0) \<and>
   0 \<le> poolRemaining (fst (getUsageStats svc today st))"
  by (simp add: getUsageStats_def Let_def)

theorem getUsageStats_pure_read_witness:
  "memGet (lastUsageDate \<lparr>lastUsageDate = Some ''Sun Nov 01 2026'', todayUsage = Some 25,
                          totalUsage = Some 40\<rparr>) [] \<noteq> ''Mon Nov 02 2026'' \<and>
   getUsageStats \<lparr>model = Some ''k'', apiKey = ''k'', isUsingPool = True\<rparr> ''Mon Nov 02 2026''
     \<lparr>lastUsageDate = Some ''Sun Nov 01 2026'', todayUsage = Some 25, totalUsage = Some 40\<rparr> =
   (\<lparr>todayRequests = 0, totalRequests = 40, dailyLimit = 20, hasOwnKey = False,
      poolRemaining = 20\<rparr>,
    \<lparr>lastUsageDate = Some ''Sun Nov 01 2026'', todayUsage = Some 25, totalUsage = Some 40\<rparr>)"
proof -
  have h: "memGet (lastUsageDate \<lparr>lastUsageDate = Some ''Sun Nov 01 2026'', todayUsage = Some 25,
                          totalUsage = Some 40\<rparr>) [] \<noteq> ''Mon Nov 02 2026''"
    by (simp add: memGet_def)
  show ?thesis
    using h getUsageStats_pure_read[of "\<lparr>model = Some ''k'', apiKey = ''k'', isUsingPool = True\<rparr>"
        "''Mon Nov 02 2026''"
        "\<lparr>lastUsageDate = Some ''Sun Nov 01 2026'', todayUsage = Some 25, totalUsage = Some 40\<rparr>"]
    by (simp add: getUsageStats_def Let_def memGet_def DAILY_POOL_LIMIT_def)
qed

end
